theory Spec2Isabelle
  imports Main "HOL-Library.Char_ord" "HOL-Library.List_Lexorder"
begin

section \<open>Python strings\<close>

text \<open>
  A Python \<open>str\<close> is modelled as a \<open>string\<close>: a list of characters, each character
  standing for the code point of the same number (the code points below 256).
  The double quote and the newline cannot be written inside a string literal and get
  a name each.
\<close>

abbreviation NL :: char where
  "NL \<equiv> CHR 0x0A"

abbreviation DQ :: char where
  "DQ \<equiv> CHR 0x22"

text \<open>
  \<open>str.isspace\<close> on one character: the code points below 256 that Python counts
  as whitespace are 9 to 13, 28 to 31, 32, 133 and 160.
\<close>

definition isspace :: "char \<Rightarrow> bool" where
  "isspace c \<longleftrightarrow>
     c \<in> set [CHR 0x09, CHR 0x0A, CHR 0x0B, CHR 0x0C, CHR 0x0D,
              CHR 0x1C, CHR 0x1D, CHR 0x1E, CHR 0x1F, CHR 0x20, CHR 0x85, CHR 0xA0]"

text \<open>\<open>s.lstrip()\<close>, \<open>s.startswith(p)\<close> and \<open>s.endswith(p)\<close>.\<close>

definition lstrip :: "string \<Rightarrow> string" where
  "lstrip s = dropWhile isspace s"

definition startswith :: "string \<Rightarrow> string \<Rightarrow> bool" where
  "startswith s p \<longleftrightarrow> take (length p) s = p"

definition endswith :: "string \<Rightarrow> string \<Rightarrow> bool" where
  "endswith s p \<longleftrightarrow> length p \<le> length s \<and> drop (length s - length p) s = p"

section \<open>monalisa.py: the soundfont line of a vlcrc\<close>

text \<open>
  The test of the loop body of \<open>update_soundfont_in_lines\<close>: the line, stripped of its
  leading whitespace, starts with \<open>soundfont=\<close> or with \<open>#soundfont=\<close>.
\<close>

definition is_soundfont_line :: "string \<Rightarrow> bool" where
  "is_soundfont_line line \<longleftrightarrow>
     (let stripped = lstrip line
      in startswith stripped ''soundfont='' \<or> startswith stripped ''#soundfont='')"

text \<open>
  The \<open>for\<close> loop of \<open>update_soundfont_in_lines\<close>, with its two variables
  \<open>updated\<close> and \<open>found\<close>.
\<close>

fun scan_lines :: "string \<Rightarrow> string list \<Rightarrow> string list \<Rightarrow> bool \<Rightarrow> string list \<times> bool" where
  "scan_lines target_line [] updated found = (updated, found)"
| "scan_lines target_line (line # lines) updated found =
     (if is_soundfont_line line
      then scan_lines target_line lines (updated @ [target_line]) True
      else scan_lines target_line lines (updated @ [line]) found)"

text \<open>The line the f-string builds; \<open>sf_path\<close> is the text \<open>str(sf_path)\<close>.\<close>

definition target_line :: "string \<Rightarrow> string" where
  "target_line sf_path = ''soundfont='' @ [DQ] @ sf_path @ [DQ, NL]"

definition marker_line :: string where
  "marker_line = [NL] @ ''# Set by configure_vlc_soundfont.py'' @ [NL]"

text \<open>
  The two lines under \<open>if not found\<close> that repair the end of the text:
  \<open>if updated and not updated[-1].endswith("\n"): updated[-1] = updated[-1] + "\n"\<close>.
\<close>

definition newline_terminated :: "string list \<Rightarrow> string list" where
  "newline_terminated updated =
     (if updated \<noteq> [] \<and> \<not> endswith (last updated) [NL]
      then butlast updated @ [last updated @ [NL]]
      else updated)"

text \<open>
  \<open>update_soundfont_in_lines(lines, sf_path)\<close>. When nothing was found, the end of
  \<open>updated\<close> is repaired and two elements are appended: the marker, which starts
  with a newline of its own, and the target line.
\<close>

definition update_soundfont_in_lines :: "string list \<Rightarrow> string \<Rightarrow> string list" where
  "update_soundfont_in_lines lines sf_path =
     (case scan_lines (target_line sf_path) lines [] False of
        (updated, found) \<Rightarrow>
          if \<not> found
          then newline_terminated updated @ [marker_line, target_line sf_path]
          else updated)"

text \<open>\<open>"".join(lines)\<close>.\<close>

definition join_lines :: "string list \<Rightarrow> string" where
  "join_lines ls = concat ls"

text \<open>
  An active line for the key: stripped of its leading whitespace it starts with
  \<open>soundfont=\<close>, the first of the two prefixes the loop tests.
\<close>

definition is_active_soundfont_line :: "string \<Rightarrow> bool" where
  "is_active_soundfont_line line \<longleftrightarrow> startswith (lstrip line) ''soundfont=''"

section \<open>monalisa.py: files, environment and the configure operation\<close>

text \<open>
  A \<open>pathlib.Path\<close> is modelled by the location it denotes: the list of the names that
  lead to it from the root, so that the empty list is the root itself. \<open>p / "name"\<close>
  is \<open>p @ [name]\<close>. Symbolic links are not modelled.
\<close>

type_synonym path = "string list"

datatype node = File string | Dir

text \<open>
  The exceptions the two scripts can end with. \<open>OSError\<close> stands for the subclass the
  platform raises when a directory is read as a file or a file stands where a directory
  is needed (\<open>IsADirectoryError\<close>, \<open>NotADirectoryError\<close>, \<open>FileExistsError\<close>,
  \<open>PermissionError\<close>).
\<close>

datatype py_error = FileNotFoundError | RuntimeError | ValueError | OSError

text \<open>
  What a run does to the files is recorded, so that "nothing was read or written" can
  be stated: every read of a file's content, every write and every directory made.
\<close>

datatype fs_event = Read_file path | Wrote_file path | Created_dir path

record world =
  environ :: "string \<rightharpoonup> string"
  files :: "path \<rightharpoonup> node"
  trace :: "fs_event list"

text \<open>
  The parts of the platform the script relies on and does not define: how
  \<open>Path(text)\<close> reads a text as a location, the text of \<open>str(p.resolve())\<close>, and the
  codec of text files (\<open>read_text(encoding="utf-8", errors="ignore")\<close> with its newline
  translation, and \<open>write_text(..., encoding="utf-8")\<close>).
\<close>

record platform =
  Path_of :: "string \<Rightarrow> path"
  resolve_str :: "path \<Rightarrow> string"
  decode_text :: "string \<Rightarrow> string"
  encode_text :: "string \<Rightarrow> string"

text \<open>A function that may raise returns the world it leaves and the exception or the value.\<close>

type_synonym 'a io = "world \<times> (py_error + 'a)"

text \<open>
  One statement after another: the second runs in the state the first leaves, unless
  the first has raised.
\<close>

definition then_do :: "'s \<times> ('e + 'a) \<Rightarrow> ('a \<Rightarrow> 's \<Rightarrow> 's \<times> ('e + 'b)) \<Rightarrow> 's \<times> ('e + 'b)" where
  "then_do r f = (case r of (w, Inl e) \<Rightarrow> (w, Inl e) | (w, Inr x) \<Rightarrow> f x w)"

text \<open>The root is a directory; any other location is what \<open>files\<close> says.\<close>

definition node_at :: "world \<Rightarrow> path \<Rightarrow> node option" where
  "node_at w p = (if p = [] then Some Dir else files w p)"

text \<open>\<open>p.exists()\<close> and \<open>p.is_file()\<close>.\<close>

definition path_exists :: "world \<Rightarrow> path \<Rightarrow> bool" where
  "path_exists w p \<longleftrightarrow> node_at w p \<noteq> None"

definition is_file :: "world \<Rightarrow> path \<Rightarrow> bool" where
  "is_file w p \<longleftrightarrow> (case node_at w p of Some (File c) \<Rightarrow> True | _ \<Rightarrow> False)"

text \<open>The locations from the first name down to \<open>p\<close> itself, the root left out.\<close>

definition ancestors_and_self :: "path \<Rightarrow> path list" where
  "ancestors_and_self p = map (\<lambda>n. take n p) [1..<Suc (length p)]"

text \<open>
  \<open>p.mkdir(parents=True, exist_ok=True)\<close>: it fails, making nothing, when \<open>p\<close> or a
  location above it is a file; otherwise it makes the directories that are missing,
  from the top down.
\<close>

definition mkdir_parents :: "path \<Rightarrow> world \<Rightarrow> unit io" where
  "mkdir_parents p w =
     (if list_ex (is_file w) (ancestors_and_self p) then (w, Inl OSError)
      else
        let missing = filter (\<lambda>q. \<not> path_exists w q) (ancestors_and_self p)
        in (w\<lparr>files := fold (\<lambda>q f. f(q \<mapsto> Dir)) missing (files w),
               trace := trace w @ map Created_dir missing\<rparr>, Inr ()))"

text \<open>\<open>p.read_bytes()\<close>.\<close>

definition read_bytes :: "path \<Rightarrow> world \<Rightarrow> string io" where
  "read_bytes p w =
     (case node_at w p of
        None \<Rightarrow> (w, Inl FileNotFoundError)
      | Some Dir \<Rightarrow> (w, Inl OSError)
      | Some (File c) \<Rightarrow> (w\<lparr>trace := trace w @ [Read_file p]\<rparr>, Inr c))"

text \<open>
  \<open>p.write_bytes(data)\<close>: the file is created or replaced; a directory cannot be
  written, and the location above \<open>p\<close> has to be a directory.
\<close>

definition write_bytes :: "path \<Rightarrow> string \<Rightarrow> world \<Rightarrow> unit io" where
  "write_bytes p data w =
     (case node_at w p of
        Some Dir \<Rightarrow> (w, Inl OSError)
      | _ \<Rightarrow>
          (case node_at w (butlast p) of
             None \<Rightarrow> (w, Inl FileNotFoundError)
           | Some (File c) \<Rightarrow> (w, Inl OSError)
           | Some Dir \<Rightarrow>
               (w\<lparr>files := (files w)(p \<mapsto> File data),
                  trace := trace w @ [Wrote_file p]\<rparr>, Inr ())))"

text \<open>\<open>p.read_text(encoding="utf-8", errors="ignore")\<close> and \<open>p.write_text(text, encoding="utf-8")\<close>.\<close>

definition read_text :: "platform \<Rightarrow> path \<Rightarrow> world \<Rightarrow> string io" where
  "read_text plat p w = then_do (read_bytes p w) (\<lambda>data w'. (w', Inr (decode_text plat data)))"

definition write_text :: "platform \<Rightarrow> path \<Rightarrow> string \<Rightarrow> world \<Rightarrow> unit io" where
  "write_text plat p text w = write_bytes p (encode_text plat text) w"

text \<open>
  \<open>text.splitlines(keepends=True)\<close>. The line boundaries among the code points below
  256 are \<open>\n\<close>, \<open>\r\<close>, \<open>\r\n\<close>, \<open>\v\<close>, \<open>\f\<close>, \<open>\x1c\<close>, \<open>\x1d\<close>, \<open>\x1e\<close> and
  \<open>\x85\<close>. The first argument is the line read so far.
\<close>

definition is_linebreak :: "char \<Rightarrow> bool" where
  "is_linebreak c \<longleftrightarrow>
     c \<in> set [CHR 0x0A, CHR 0x0B, CHR 0x0C, CHR 0x0D, CHR 0x1C, CHR 0x1D, CHR 0x1E, CHR 0x85]"

fun splitlines_from :: "string \<Rightarrow> string \<Rightarrow> string list" where
  "splitlines_from cur [] = (if cur = [] then [] else [cur])"
| "splitlines_from cur [c] = [cur @ [c]]"
| "splitlines_from cur (c # d # cs) =
     (if c = CHR 0x0D \<and> d = CHR 0x0A then (cur @ [c, d]) # splitlines_from [] cs
      else if is_linebreak c then (cur @ [c]) # splitlines_from [] (d # cs)
      else splitlines_from (cur @ [c]) (d # cs))"

definition splitlines :: "string \<Rightarrow> string list" where
  "splitlines text = splitlines_from [] text"

text \<open>
  \<open>get_vlc_config_file()\<close>: \<open>if not appdata\<close> holds for an unset and for an empty
  variable.
\<close>

definition get_vlc_config_file :: "platform \<Rightarrow> world \<Rightarrow> path io" where
  "get_vlc_config_file plat w =
     (case environ w ''APPDATA'' of
        None \<Rightarrow> (w, Inl RuntimeError)
      | Some appdata \<Rightarrow>
          if appdata = [] then (w, Inl RuntimeError)
          else
            let config_dir = Path_of plat appdata @ [''vlc'']
            in then_do (mkdir_parents config_dir w)
                 (\<lambda>_ w'. (w', Inr (config_dir @ [''vlcrc'']))))"

text \<open>
  \<open>path.with_suffix(path.suffix + ".bak")\<close>: the last name with \<open>.bak\<close> appended,
  whatever suffix it has; pathlib refuses a path with no name.
\<close>

definition with_bak_suffix :: "path \<Rightarrow> py_error + path" where
  "with_bak_suffix p = (if p = [] then Inl ValueError else Inr (butlast p @ [last p @ ''.bak'']))"

text \<open>\<open>backup_file(path)\<close>.\<close>

definition backup_file :: "path \<Rightarrow> world \<Rightarrow> unit io" where
  "backup_file p w =
     (if path_exists w p then
        (case with_bak_suffix p of
           Inl e \<Rightarrow> (w, Inl e)
         | Inr backup \<Rightarrow>
             if \<not> path_exists w backup
             then then_do (read_bytes p w) (\<lambda>data w'. write_bytes backup data w')
             else (w, Inr ()))
      else (w, Inr ()))"

text \<open>\<open>configure_vlc_soundfont(sf_path)\<close>.\<close>

definition configure_vlc_soundfont :: "platform \<Rightarrow> path \<Rightarrow> world \<Rightarrow> path io" where
  "configure_vlc_soundfont plat sf_path w =
     (if \<not> is_file w sf_path then (w, Inl FileNotFoundError)
      else
        then_do (get_vlc_config_file plat w) (\<lambda>vlcrc w1.
        then_do (backup_file vlcrc w1) (\<lambda>_ w2.
        then_do (if path_exists w2 vlcrc
                 then then_do (read_text plat vlcrc w2) (\<lambda>text w'. (w', Inr (splitlines text)))
                 else (w2, Inr [])) (\<lambda>lines w3.
        let new_lines = update_soundfont_in_lines lines (resolve_str plat sf_path)
        in then_do (write_text plat vlcrc (join_lines new_lines) w3) (\<lambda>_ w4.
        (w4, Inr vlcrc))))))"

section \<open>patch_vlc.py: cloning, patching and building\<close>

text \<open>
  The script ends in one of two abnormal ways: \<open>sys.exit(code)\<close>, or an exception
  nothing catches.
\<close>

datatype halt = SystemExit int | Raised py_error

text \<open>
  What \<open>subprocess.run(cmd, cwd=..., check=True)\<close> meets: the program ran and returned
  a code, or it could not be started and an \<open>OSError\<close> is raised in its place.
\<close>

datatype proc_result = Returned int | Not_started

text \<open>
  The operating system is a parameter: its state \<open>'h\<close> (the file systems, the
  repositories, the network) and the operations the script calls on it.
  \<open>os_glob h dir pattern\<close> lists \<open>dir.glob(pattern)\<close> in the order the system yields
  it, \<open>os_str\<close> is \<open>str(path)\<close>, \<open>os_which h name\<close> says whether
  \<open>shutil.which(name)\<close> finds the tool, \<open>os_mkdir\<close> is
  \<open>mkdir(parents=True, exist_ok=True)\<close>. Console output is not modelled.
\<close>

record 'h system =
  os_which :: "'h \<Rightarrow> string \<Rightarrow> bool"
  os_exists :: "'h \<Rightarrow> path \<Rightarrow> bool"
  os_glob :: "'h \<Rightarrow> path \<Rightarrow> string \<Rightarrow> path list"
  os_mkdir :: "'h \<Rightarrow> path \<Rightarrow> 'h \<times> (py_error + unit)"
  os_run :: "'h \<Rightarrow> string list \<Rightarrow> path option \<Rightarrow> proc_result \<times> 'h"
  os_resolve :: "'h \<Rightarrow> path \<Rightarrow> path"
  os_str :: "path \<Rightarrow> string"

text \<open>
  The state of a run: the state of the system, and the commands handed to
  \<open>subprocess.run\<close> so far, each with its working directory, in order.
\<close>

record 'h machine =
  host :: 'h
  spawned :: "(string list \<times> path option) list"

type_synonym ('h, 'a) step = "'h machine \<times> (halt + 'a)"

text \<open>
  \<open>run(cmd, cwd)\<close>: a return code other than zero raises \<open>CalledProcessError\<close>, which
  is caught and turned into \<open>sys.exit(exc.returncode)\<close>; any other exception passes.
\<close>

definition run :: "'h system \<Rightarrow> string list \<Rightarrow> path option \<Rightarrow> 'h machine \<Rightarrow> ('h, unit) step" where
  "run sys cmd cwd m =
     (case os_run sys (host m) cmd cwd of
        (res, h') \<Rightarrow>
          (let m' = \<lparr>host = h', spawned = spawned m @ [(cmd, cwd)]\<rparr>
           in case res of
                Not_started \<Rightarrow> (m', Inl (Raised OSError))
              | Returned returncode \<Rightarrow>
                  if returncode \<noteq> 0 then (m', Inl (SystemExit returncode))
                  else (m', Inr ())))"

text \<open>\<open>check_tool(name)\<close>.\<close>

definition check_tool :: "'h system \<Rightarrow> string \<Rightarrow> 'h machine \<Rightarrow> ('h, unit) step" where
  "check_tool sys name m =
     (if \<not> os_which sys (host m) name then (m, Inl (SystemExit 1)) else (m, Inr ()))"

text \<open>\<open>path.mkdir(parents=True, exist_ok=True)\<close> in a run; its exception is not caught.\<close>

definition mkdir :: "'h system \<Rightarrow> path \<Rightarrow> 'h machine \<Rightarrow> ('h, unit) step" where
  "mkdir sys p m =
     (case os_mkdir sys (host m) p of
        (h', Inl e) \<Rightarrow> (m\<lparr>host := h'\<rparr>, Inl (Raised e))
      | (h', Inr u) \<Rightarrow> (m\<lparr>host := h'\<rparr>, Inr ()))"

text \<open>\<open>ensure_repo(work_dir, remote, branch)\<close>.\<close>

definition ensure_repo ::
  "'h system \<Rightarrow> path \<Rightarrow> string \<Rightarrow> string \<Rightarrow> 'h machine \<Rightarrow> ('h, path) step" where
  "ensure_repo sys work_dir remote branch m =
     (let repo_dir = work_dir @ [''vlc'']
      in then_do
           (if \<not> os_exists sys (host m) repo_dir
            then then_do (mkdir sys work_dir m)
                   (\<lambda>_ m. run sys [''git'', ''clone'', remote, os_str sys repo_dir] None m)
            else run sys [''git'', ''fetch'', ''origin''] (Some repo_dir) m) (\<lambda>_ m.
         then_do (run sys [''git'', ''checkout'', branch] (Some repo_dir) m) (\<lambda>_ m.
         then_do (run sys [''git'', ''pull'', ''origin'', branch] (Some repo_dir) m) (\<lambda>_ m.
         (m, Inr repo_dir)))))"

text \<open>The command the loop of \<open>apply_patches\<close> builds for one patch.\<close>

definition git_apply_cmd :: "'h system \<Rightarrow> bool \<Rightarrow> path \<Rightarrow> string list" where
  "git_apply_cmd sys reverse patch =
     [''git'', ''apply''] @ (if reverse then [''--reverse''] else []) @ [os_str sys patch]"

text \<open>The \<open>for\<close> loop of \<open>apply_patches\<close>: \<open>sys.exit\<close> inside \<open>run\<close> ends it.\<close>

fun apply_each :: "'h system \<Rightarrow> path \<Rightarrow> bool \<Rightarrow> path list \<Rightarrow> 'h machine \<Rightarrow> ('h, unit) step" where
  "apply_each sys repo_dir reverse [] m = (m, Inr ())"
| "apply_each sys repo_dir reverse (patch # patch_files) m =
     then_do (run sys (git_apply_cmd sys reverse patch) (Some repo_dir) m)
       (\<lambda>_ m'. apply_each sys repo_dir reverse patch_files m')"

text \<open>
  \<open>apply_patches(repo_dir, patches_dir, reverse)\<close>. \<open>sorted\<close> orders the paths as
  lists of names, each name by its code points.
\<close>

definition apply_patches ::
  "'h system \<Rightarrow> path \<Rightarrow> path \<Rightarrow> bool \<Rightarrow> 'h machine \<Rightarrow> ('h, unit) step" where
  "apply_patches sys repo_dir patches_dir reverse m =
     (if \<not> os_exists sys (host m) patches_dir then (m, Inr ())
      else
        let patch_files = sort (os_glob sys (host m) patches_dir ''*.patch'')
        in if patch_files = [] then (m, Inr ())
           else apply_each sys repo_dir reverse patch_files m)"

text \<open>\<open>configure_vlc(repo_dir, build_dir, extra_flags, run_bootstrap)\<close>.\<close>

definition configure_vlc ::
  "'h system \<Rightarrow> path \<Rightarrow> path \<Rightarrow> string list \<Rightarrow> bool \<Rightarrow> 'h machine \<Rightarrow> ('h, unit) step" where
  "configure_vlc sys repo_dir build_dir extra_flags run_bootstrap m =
     then_do (mkdir sys build_dir m) (\<lambda>_ m.
     then_do (if run_bootstrap then run sys [''./bootstrap''] (Some repo_dir) m
              else (m, Inr ())) (\<lambda>_ m.
     let configure_script = repo_dir @ [''configure'']
     in if \<not> os_exists sys (host m) configure_script then (m, Inl (SystemExit 1))
        else
          let cmd = [os_str sys configure_script,
                     ''--prefix='' @ os_str sys (build_dir @ [''install''])] @ extra_flags
          in run sys cmd (Some build_dir) m))"

text \<open>\<open>str(n)\<close> for a natural number.\<close>

fun str_nat :: "nat \<Rightarrow> string" where
  "str_nat n =
     (if n < 10 then [''0123456789'' ! n]
      else str_nat (n div 10) @ [''0123456789'' ! (n mod 10)])"

text \<open>\<open>build_vlc(build_dir, jobs)\<close>; \<open>str(jobs)\<close> is taken of a positive number only.\<close>

definition build_vlc :: "'h system \<Rightarrow> path \<Rightarrow> int \<Rightarrow> 'h machine \<Rightarrow> ('h, unit) step" where
  "build_vlc sys build_dir jobs m =
     (let cmd = [''make''] @ (if jobs > 0 then [''-j'', str_nat (nat jobs)] else [])
      in run sys cmd (Some build_dir) m)"

text \<open>The parsed command line.\<close>

record args =
  work_dir :: path
  patches_dir :: path
  remote :: string
  branch :: string
  apply_only :: bool
  bootstrap :: bool
  configure :: bool
  build :: bool
  jobs :: int
  configure_flags :: "string list"
  reverse_patches :: bool

text \<open>\<open>main()\<close>, after \<open>parse_args()\<close>.\<close>

definition main :: "'h system \<Rightarrow> args \<Rightarrow> 'h machine \<Rightarrow> ('h, unit) step" where
  "main sys args m =
     then_do (check_tool sys ''git'' m) (\<lambda>_ m.
     then_do (if configure args \<or> build args \<or> bootstrap args
              then check_tool sys ''make'' m else (m, Inr ())) (\<lambda>_ m.
     let work_dir = os_resolve sys (host m) (work_dir args);
         patches_dir = os_resolve sys (host m) (patches_dir args);
         build_dir = work_dir @ [''build'']
     in then_do (ensure_repo sys work_dir (remote args) (branch args) m) (\<lambda>repo_dir m.
        then_do (apply_patches sys repo_dir patches_dir (reverse_patches args) m) (\<lambda>_ m.
        if apply_only args then (m, Inr ())
        else
          then_do (if configure args
                   then configure_vlc sys repo_dir build_dir (configure_flags args)
                          (bootstrap args) m
                   else (m, Inr ())) (\<lambda>_ m.
          then_do (if build args then build_vlc sys build_dir (jobs args) m
                   else (m, Inr ())) (\<lambda>_ m.
          (m, Inr ())))))))"

text \<open>
  The state of the system after a list of commands has run, one after the other: what
  the next command of a run finds.
\<close>

fun host_after :: "'h system \<Rightarrow> 'h \<Rightarrow> (string list \<times> path option) list \<Rightarrow> 'h" where
  "host_after sys h [] = h"
| "host_after sys h ((cmd, cwd) # cmds) = host_after sys (snd (os_run sys h cmd cwd)) cmds"

section \<open>A small platform and world for concrete runs\<close>

text \<open>
  A platform on which a text names a single location and nothing is recoded, and a
  world in which the soundfont and a vlcrc without a final newline exist, and no
  backup does.
\<close>

definition demo_platform :: platform where
  "demo_platform =
     \<lparr>Path_of = (\<lambda>s. [s]), resolve_str = (\<lambda>p. last p),
      decode_text = (\<lambda>s. s), encode_text = (\<lambda>s. s)\<rparr>"

definition demo_world :: world where
  "demo_world =
     \<lparr>environ = [''APPDATA'' \<mapsto> ''C:''],
      files = [[''D:''] \<mapsto> Dir, [''D:'', ''Monalisa.sf2''] \<mapsto> File ''sfbk'',
               [''C:''] \<mapsto> Dir, [''C:'', ''vlc''] \<mapsto> Dir,
               [''C:'', ''vlc'', ''vlcrc''] \<mapsto> File (''a=1'' @ [NL] @ ''#soundfont=old'')],
      trace = []\<rparr>"

text \<open>
  A system for concrete runs: every tool and every path exists, the patches directory
  lists three patches out of order, and every command succeeds but the application of
  the second patch, which returns 1. Its state counts the commands run. The command
  line asks for apply-only.
\<close>

definition demo_system :: "nat system" where
  "demo_system =
     \<lparr>os_which = (\<lambda>h name. True),
      os_exists = (\<lambda>h p. True),
      os_glob = (\<lambda>h d pat. [d @ [''02-b.patch''], d @ [''03-c.patch''], d @ [''01-a.patch'']]),
      os_mkdir = (\<lambda>h p. (h, Inr ())),
      os_run = (\<lambda>h cmd cwd.
         (if cmd = [''git'', ''apply'', ''/patches/02-b.patch''] then Returned 1 else Returned 0,
          Suc h)),
      os_resolve = (\<lambda>h p. p),
      os_str = (\<lambda>p. concat (map (\<lambda>n. ''/'' @ n) p))\<rparr>"

definition demo_args :: args where
  "demo_args =
     \<lparr>work_dir = [''work''], patches_dir = [''patches''], remote = ''https://example.org/vlc.git'',
      branch = ''master'', apply_only = True, bootstrap = False, configure = False,
      build = False, jobs = 0, configure_flags = [], reverse_patches = False\<rparr>"

section \<open>Properties of the merge\<close>

lemma scan_lines_eq:
  "scan_lines t ls upd f =
     (upd @ map (\<lambda>l. if is_soundfont_line l then t else l) ls,
      f \<or> (\<exists>l \<in> set ls. is_soundfont_line l))"
  by (induction ls arbitrary: upd f) auto

lemma is_soundfont_line_iff:
  "is_soundfont_line l \<longleftrightarrow>
     startswith (lstrip l) ''soundfont='' \<or> startswith (lstrip l) ''#soundfont=''"
  by (simp add: is_soundfont_line_def Let_def)

lemma update_found:
  "\<exists>l \<in> set ls. is_soundfont_line l \<Longrightarrow>
   update_soundfont_in_lines ls v = map (\<lambda>l. if is_soundfont_line l then target_line v else l) ls"
  by (simp add: update_soundfont_in_lines_def scan_lines_eq)

lemma map_not_found:
  "\<forall>l \<in> set ls. \<not> is_soundfont_line l \<Longrightarrow>
   map (\<lambda>l. if is_soundfont_line l then t else l) ls = ls"
  by (induction ls) auto

lemma update_not_found:
  "\<forall>l \<in> set ls. \<not> is_soundfont_line l \<Longrightarrow>
   update_soundfont_in_lines ls v = newline_terminated ls @ [marker_line, target_line v]"
  by (simp add: update_soundfont_in_lines_def scan_lines_eq map_not_found)

lemma lstrip_target: "lstrip (target_line v) = target_line v"
  by (simp add: lstrip_def target_line_def isspace_def)

lemma target_is_active: "is_active_soundfont_line (target_line v)"
  by (simp add: is_active_soundfont_line_def lstrip_target) (simp add: target_line_def startswith_def)

lemma active_is_soundfont: "is_active_soundfont_line l \<Longrightarrow> is_soundfont_line l"
  by (simp add: is_active_soundfont_line_def is_soundfont_line_iff)

lemma target_is_soundfont: "is_soundfont_line (target_line v)"
  by (rule active_is_soundfont [OF target_is_active])






lemma length_newline_terminated: "length (newline_terminated ls) = length ls"
  by (simp add: newline_terminated_def)




lemma count_target_replaced:
  "length (filter (\<lambda>l. l = target_line v) (map (\<lambda>l. if is_soundfont_line l then target_line v else l) ls))
     = length (filter is_soundfont_line ls)"
  by (induction ls) (auto simp: target_is_soundfont)






lemmas merge_eval = update_soundfont_in_lines_def is_soundfont_line_iff is_active_soundfont_line_def
      lstrip_def isspace_def startswith_def endswith_def target_line_def marker_line_def newline_terminated_def join_lines_def

section \<open>The claims about the merge\<close>




text \<open>
  Claim C2. When two or more lines of the input match the key, every one of them is
  replaced by the same line, \<open>soundfont=\<close>, the value between double quotes and a
  newline, and every other line stays where it is; the result holds as many copies of
  that line as the input has matching lines (nothing is deduplicated), and as many
  lines as the input.
\<close>

theorem update_soundfont_replaces_every_match:
  assumes "2 \<le> length (filter is_soundfont_line lines)"
  shows "update_soundfont_in_lines lines v
           = map (\<lambda>l. if is_soundfont_line l then ''soundfont='' @ [DQ] @ v @ [DQ, NL] else l)
               lines
         \<and> length (filter (\<lambda>l. l = ''soundfont='' @ [DQ] @ v @ [DQ, NL])
                   (update_soundfont_in_lines lines v))
           = length (filter is_soundfont_line lines)
         \<and> length (update_soundfont_in_lines lines v) = length lines"
proof -
  from assms have "filter is_soundfont_line lines \<noteq> []" by auto
  then have "\<exists>l \<in> set lines. is_soundfont_line l" by (simp add: filter_empty_conv)
  then have "update_soundfont_in_lines lines v
           = map (\<lambda>l. if is_soundfont_line l then target_line v else l) lines"
    by (rule update_found)
  then have out: "update_soundfont_in_lines lines v
           = map (\<lambda>l. if is_soundfont_line l then ''soundfont='' @ [DQ] @ v @ [DQ, NL] else l)
               lines"
    by (simp only: target_line_def)
  have cnt: "length (filter (\<lambda>l. l = ''soundfont='' @ [DQ] @ v @ [DQ, NL])
                 (map (\<lambda>l. if is_soundfont_line l then ''soundfont='' @ [DQ] @ v @ [DQ, NL] else l)
                    lines))
           = length (filter is_soundfont_line lines)"
    using count_target_replaced [of v lines] by (simp only: target_line_def)
  show ?thesis unfolding out cnt by simp
qed

theorem update_soundfont_replaces_every_match_witness:
  "2 \<le> length (filter is_soundfont_line
          [''soundfont=a'' @ [NL], ''x=1'' @ [NL], ''  #soundfont=b'' @ [NL]])
   \<and> update_soundfont_in_lines
          [''soundfont=a'' @ [NL], ''x=1'' @ [NL], ''  #soundfont=b'' @ [NL]] ''/s.sf2''
       = [''soundfont='' @ [DQ] @ ''/s.sf2'' @ [DQ, NL], ''x=1'' @ [NL],
          ''soundfont='' @ [DQ] @ ''/s.sf2'' @ [DQ, NL]]
   \<and> update_soundfont_in_lines
          [''soundfont=a'' @ [NL], ''x=1'' @ [NL], ''  #soundfont=b'' @ [NL]] ''/other/b.sf2''
       = [''soundfont='' @ [DQ] @ ''/other/b.sf2'' @ [DQ, NL], ''x=1'' @ [NL],
          ''soundfont='' @ [DQ] @ ''/other/b.sf2'' @ [DQ, NL]]"
proof -
  have h: "2 \<le> length (filter is_soundfont_line
          [''soundfont=a'' @ [NL], ''x=1'' @ [NL], ''  #soundfont=b'' @ [NL]])"
    by (simp add: is_soundfont_line_iff lstrip_def isspace_def startswith_def)
  from update_soundfont_replaces_every_match [OF h, of "''/s.sf2''"]
    update_soundfont_replaces_every_match [OF h, of "''/other/b.sf2''"] h
  show ?thesis
    by (simp add: is_soundfont_line_iff lstrip_def isspace_def startswith_def)
qed





text \<open>
  Claim C5, as the specification states it: the empty input gives a sequence of three
  elements. The function returns two: the blank line and the comment line are one
  element.
\<close>

theorem update_soundfont_empty_not_three_lines:
  "update_soundfont_in_lines [] ''/a.sf2''
     \<noteq> [[NL], ''# Set by configure_vlc_soundfont.py'' @ [NL],
        ''soundfont='' @ [DQ] @ ''/a.sf2'' @ [DQ, NL]]"
  by (simp add: merge_eval)

text \<open>
  Claim C5, amended. For the empty input and the value \<open>/a.sf2\<close> the function
  returns the two-element sequence of the marker element (a newline, the comment and
  a newline) and the target line; joined, it is the same text as the three lines of
  the specification's example.
\<close>

theorem update_soundfont_empty:
  "update_soundfont_in_lines [] ''/a.sf2''
     = [[NL] @ ''# Set by configure_vlc_soundfont.py'' @ [NL],
        ''soundfont='' @ [DQ] @ ''/a.sf2'' @ [DQ, NL]]
   \<and> join_lines (update_soundfont_in_lines [] ''/a.sf2'')
     = join_lines [[NL], ''# Set by configure_vlc_soundfont.py'' @ [NL],
        ''soundfont='' @ [DQ] @ ''/a.sf2'' @ [DQ, NL]]"
  by (simp add: merge_eval)

text \<open>
  Claim C10, as stated: a commented line with whitespace between the comment sign and
  the key is kept verbatim. As the last line of an input in which nothing matches,
  and without a newline of its own, it is not: the function adds the newline.
\<close>

theorem spaced_comment_changed_counterexample:
  "startswith (lstrip ''# soundfont=old'') ''#''
   \<and> \<not> startswith (lstrip ''# soundfont=old'') ''#soundfont=''
   \<and> update_soundfont_in_lines [''# soundfont=old''] ''/a.sf2'' ! 0 \<noteq> ''# soundfont=old''"
  by (simp add: merge_eval)

text \<open>
  Claim C10, amended. A line that, stripped of its leading whitespace, starts with
  \<open>#\<close> but not with \<open>#soundfont=\<close> is no match, and the result holds it at the
  position it had, verbatim, except that a newline is added to it when no line of the
  input matches, it is the last line and it does not end with a newline.
\<close>

theorem spaced_comment_kept:
  assumes "startswith (lstrip l) ''#''" and "\<not> startswith (lstrip l) ''#soundfont=''"
    and "i < length lines" and "lines ! i = l"
  shows "\<not> is_soundfont_line l
         \<and> i < length (update_soundfont_in_lines lines v)
         \<and> update_soundfont_in_lines lines v ! i
           = (if (\<forall>k \<in> set lines. \<not> is_soundfont_line k) \<and> i = length lines - 1
                 \<and> \<not> endswith l [NL]
              then l @ [NL] else l)"
proof -
  from assms(1) have "\<not> startswith (lstrip l) ''soundfont=''"
    by (cases "lstrip l") (auto simp: startswith_def)
  with assms(2) have nm: "\<not> is_soundfont_line l" by (simp add: is_soundfont_line_iff)
  show ?thesis
  proof (cases "\<exists>k \<in> set lines. is_soundfont_line k")
    case True
    then have "update_soundfont_in_lines lines v
           = map (\<lambda>l. if is_soundfont_line l then target_line v else l) lines"
      by (rule update_found)
    with True nm assms(3,4) show ?thesis by auto
  next
    case False
    then have nf: "\<forall>k \<in> set lines. \<not> is_soundfont_line k" by simp
    have out: "update_soundfont_in_lines lines v
           = newline_terminated lines @ [marker_line, target_line v]"
      using nf by (rule update_not_found)
    have len: "i < length (newline_terminated lines)"
      using assms(3) by (simp add: length_newline_terminated)
    have "newline_terminated lines ! i
           = (if i = length lines - 1 \<and> \<not> endswith l [NL] then l @ [NL] else l)"
    proof (cases "i = length lines - 1")
      case True
      from assms(3) have ne: "lines \<noteq> []" by auto
      with True assms(4) have "last lines = l" by (simp add: last_conv_nth)
      note this ne
      with True assms(4) show ?thesis
        by (auto simp: newline_terminated_def nth_append length_butlast)
    next
      case False
      with assms(3) have "i < length (butlast lines)" by simp
      with False assms(4) show ?thesis
        by (simp add: newline_terminated_def nth_append nth_butlast)
    qed
    with nm nf len show ?thesis by (simp add: out nth_append)
  qed
qed

theorem spaced_comment_kept_witness:
  "startswith (lstrip (''  # soundfont=old'' @ [NL])) ''#''
   \<and> \<not> startswith (lstrip (''  # soundfont=old'' @ [NL])) ''#soundfont=''
   \<and> \<not> is_soundfont_line (''  # soundfont=old'' @ [NL])
   \<and> update_soundfont_in_lines [''a=1'' @ [NL], ''  # soundfont=old'' @ [NL], ''soundfont=x''] ''/a.sf2'' ! 1
       = ''  # soundfont=old'' @ [NL]"
proof -
  have h1: "startswith (lstrip (''  # soundfont=old'' @ [NL])) ''#''"
    and h2: "\<not> startswith (lstrip (''  # soundfont=old'' @ [NL])) ''#soundfont=''"
    by (simp_all add: lstrip_def isspace_def startswith_def)
  have h3: "1 < length [''a=1'' @ [NL], ''  # soundfont=old'' @ [NL], ''soundfont=x'']"
    and h4: "[''a=1'' @ [NL], ''  # soundfont=old'' @ [NL], ''soundfont=x''] ! 1 = ''  # soundfont=old'' @ [NL]"
    by simp_all
  from spaced_comment_kept [OF h1 h2 h3 h4, of "''/a.sf2''"] h1 h2 show ?thesis
    by (simp add: endswith_def)
qed

section \<open>Properties of the configure operation\<close>

lemma then_do_Inl [simp]: "then_do (w, Inl e) f = (w, Inl e)"
  by (simp add: then_do_def)

lemma then_do_Inr [simp]: "then_do (w, Inr x) f = f x w"
  by (simp add: then_do_def)

lemma then_do_cases:
  assumes "then_do r f = (w', res)"
  obtains e where "r = (w', Inl e)" and "res = Inl e"
  | x w1 where "r = (w1, Inr x)" and "f x w1 = (w', res)"
  using assms by (cases r) (auto simp: then_do_def split: sum.splits)

lemma ancestors_nonempty: "q \<in> set (ancestors_and_self p) \<Longrightarrow> q \<noteq> []"
  by (auto simp: ancestors_and_self_def)

lemma fold_mkdir:
  "fold (\<lambda>q f. f(q \<mapsto> Dir)) qs f0 q = (if q \<in> set qs then Some Dir else f0 q)"
  by (induction qs arbitrary: f0) auto

lemma mkdir_parents_keeps:
  assumes "mkdir_parents p w = (w', r)" and "files w q = Some n"
  shows "files w' q = Some n"
proof (cases "list_ex (is_file w) (ancestors_and_self p)")
  case True
  with assms show ?thesis by (simp add: mkdir_parents_def)
next
  case False
  let ?missing = "filter (\<lambda>q. \<not> path_exists w q) (ancestors_and_self p)"
  have "q \<notin> set ?missing"
    using assms(2) ancestors_nonempty [of q p] by (auto simp: path_exists_def node_at_def)
  with False assms show ?thesis
    by (auto simp: mkdir_parents_def Let_def fold_mkdir)
qed

lemma mkdir_parents_environ:
  "mkdir_parents p w = (w', r) \<Longrightarrow> environ w' = environ w"
  by (auto simp: mkdir_parents_def Let_def split: if_splits)

lemma read_bytes_files: "read_bytes p w = (w', r) \<Longrightarrow> files w' = files w"
  by (auto simp: read_bytes_def split: option.splits node.splits)

lemma write_bytes_keeps:
  "write_bytes p d w = (w', r) \<Longrightarrow> q \<noteq> p \<Longrightarrow> files w' q = files w q"
  by (auto simp: write_bytes_def split: option.splits node.splits)

lemma backup_file_keeps:
  assumes "backup_file p w = (w', r)" and "files w q = Some n"
  shows "files w' q = Some n"
proof (cases "path_exists w p \<and> p \<noteq> [] \<and> \<not> path_exists w (butlast p @ [last p @ ''.bak''])")
  case False
  with assms show ?thesis
    by (auto simp: backup_file_def with_bak_suffix_def split: if_splits)
next
  case True
  let ?b = "butlast p @ [last p @ ''.bak'']"
  from True assms(2) have ne: "q \<noteq> ?b" by (auto simp: path_exists_def node_at_def)
  from True assms(1) have "then_do (read_bytes p w) (\<lambda>data w'. write_bytes ?b data w') = (w', r)"
    by (simp add: backup_file_def with_bak_suffix_def)
  then show ?thesis
  proof (cases rule: then_do_cases)
    case (1 e)
    then show ?thesis using assms(2) read_bytes_files by metis
  next
    case (2 x w1)
    then have "files w1 = files w" and "files w' q = files w1 q"
      using read_bytes_files write_bytes_keeps ne by metis+
    with assms(2) show ?thesis by simp
  qed
qed

lemma get_vlc_config_file_keeps:
  assumes "get_vlc_config_file plat w = (w', r)" and "files w q = Some n"
  shows "files w' q = Some n"
proof (cases "environ w ''APPDATA''")
  case None
  with assms show ?thesis by (simp add: get_vlc_config_file_def)
next
  case (Some a)
  show ?thesis
  proof (cases "a = []")
    case True
    with Some assms show ?thesis by (simp add: get_vlc_config_file_def)
  next
    case False
    obtain w1 r1 where mk: "mkdir_parents (Path_of plat a @ [''vlc'']) w = (w1, r1)"
      by (cases "mkdir_parents (Path_of plat a @ [''vlc'']) w")
    have k: "files w1 q = Some n" using mk assms(2) by (rule mkdir_parents_keeps)
    from assms(1) Some False mk have "w' = w1"
      by (cases r1) (simp_all add: get_vlc_config_file_def Let_def)
    with k show ?thesis by simp
  qed
qed

lemma get_vlc_config_file_last:
  "get_vlc_config_file plat w = (w', Inr p) \<Longrightarrow> p \<noteq> [] \<and> last p = ''vlcrc''"
  by (auto simp: get_vlc_config_file_def Let_def then_do_def
      split: option.splits if_splits prod.splits sum.splits)

lemma read_text_files: "read_text plat p w = (w', r) \<Longrightarrow> files w' = files w"
  by (auto simp: read_text_def then_do_def dest: read_bytes_files split: prod.splits sum.splits)

lemma write_text_keeps:
  "write_text plat p t w = (w', r) \<Longrightarrow> q \<noteq> p \<Longrightarrow> files w' q = files w q"
  unfolding write_text_def by (rule write_bytes_keeps)

lemma configure_keeps:
  assumes run: "configure_vlc_soundfont plat sf w = (w', r)"
    and q: "files w q = Some n"
    and name: "q = [] \<or> last q \<noteq> ''vlcrc''"
  shows "files w' q = Some n"
proof (cases "is_file w sf")
  case False
  with run q show ?thesis by (simp add: configure_vlc_soundfont_def)
next
  case True
  let ?rest = "\<lambda>vlcrc w1.
        then_do (backup_file vlcrc w1) (\<lambda>_ w2.
        then_do (if path_exists w2 vlcrc
                 then then_do (read_text plat vlcrc w2) (\<lambda>text w'. (w', Inr (splitlines text)))
                 else (w2, Inr [])) (\<lambda>lines w3.
        let new_lines = update_soundfont_in_lines lines (resolve_str plat sf)
        in then_do (write_text plat vlcrc (join_lines new_lines) w3) (\<lambda>_ w4.
        (w4, Inr vlcrc))))"
  from True run have "then_do (get_vlc_config_file plat w) ?rest = (w', r)"
    by (simp add: configure_vlc_soundfont_def)
  then show ?thesis
  proof (cases rule: then_do_cases)
    case (1 e)
    then show ?thesis using q get_vlc_config_file_keeps by blast
  next
    case (2 vlcrc w1)
    have q1: "files w1 q = Some n" using 2(1) q by (rule get_vlc_config_file_keeps)
    from 2(1) have "vlcrc \<noteq> [] \<and> last vlcrc = ''vlcrc''" by (rule get_vlc_config_file_last)
    with name have ne: "q \<noteq> vlcrc" by auto
    from 2(2) show ?thesis
    proof (cases rule: then_do_cases)
      case (1 e)
      then show ?thesis using q1 backup_file_keeps by blast
    next
      case (2 u w2)
      have q2: "files w2 q = Some n" using 2(1) q1 by (rule backup_file_keeps)
      from 2(2) show ?thesis
      proof (cases rule: then_do_cases)
        case (1 e)
        then show ?thesis using q2
          by (auto simp: then_do_def dest: read_text_files split: if_splits prod.splits sum.splits)
      next
        case (2 lines w3)
        from 2(1) have "files w3 = files w2"
          by (auto simp: then_do_def dest: read_text_files split: if_splits prod.splits sum.splits)
        with q2 have q3: "files w3 q = Some n" by simp
        from 2(2) obtain r4 where
          "write_text plat vlcrc (join_lines (update_soundfont_in_lines lines (resolve_str plat sf))) w3
             = (w', r4)"
          by (auto simp: Let_def then_do_def split: prod.splits sum.splits)
        then have "files w' q = files w3 q" using ne by (rule write_text_keeps)
        with q3 show ?thesis by simp
      qed
    qed
  qed
qed

lemma mkdir_parents_present:
  assumes "\<forall>q \<in> set (ancestors_and_self p). files w q = Some Dir"
  shows "mkdir_parents p w = (w, Inr ())"
proof -
  have nf: "\<not> list_ex (is_file w) (ancestors_and_self p)"
    using assms ancestors_nonempty [of _ p]
    by (auto simp: list_ex_iff is_file_def node_at_def)
  have "filter (\<lambda>q. \<not> path_exists w q) (ancestors_and_self p) = []"
    using assms ancestors_nonempty [of _ p]
    by (auto simp: filter_empty_conv path_exists_def node_at_def)
  with nf show ?thesis by (simp add: mkdir_parents_def)
qed

lemma self_in_ancestors: "p \<noteq> [] \<Longrightarrow> p \<in> set (ancestors_and_self p)"
proof -
  assume "p \<noteq> []"
  then have "length p \<in> set [1..<Suc (length p)]" by (cases p) auto
  then have "take (length p) p \<in> set (ancestors_and_self p)"
    unfolding ancestors_and_self_def by (metis (no_types, lifting) imageI set_map)
  then show ?thesis by simp
qed

section \<open>The claims about the configure operation\<close>

text \<open>
  Claim C6. When the soundfont path is not a regular file, or \<open>APPDATA\<close> is unset
  (or empty), \<open>configure_vlc_soundfont\<close> raises (\<open>FileNotFoundError\<close> in the first
  case, \<open>RuntimeError\<close> otherwise) and leaves the world as it found it: no file and
  no directory has changed, the configuration file and its backup among them, and the
  record of reads and writes has not grown.
\<close>

theorem configure_fails_fast:
  assumes "\<not> is_file w sf_path \<or> environ w ''APPDATA'' = None \<or> environ w ''APPDATA'' = Some []"
  shows "configure_vlc_soundfont plat sf_path w
           = (w, Inl (if \<not> is_file w sf_path then FileNotFoundError else RuntimeError))"
  using assms
  by (auto simp: configure_vlc_soundfont_def get_vlc_config_file_def then_do_def)

theorem configure_fails_fast_witness:
  "\<not> is_file demo_world [''D:'', ''Missing.sf2'']
   \<and> configure_vlc_soundfont demo_platform [''D:'', ''Missing.sf2''] demo_world
       = (demo_world, Inl FileNotFoundError)
   \<and> is_file demo_world [''D:'', ''Monalisa.sf2'']
   \<and> environ (demo_world\<lparr>environ := Map.empty\<rparr>) ''APPDATA'' = None
   \<and> configure_vlc_soundfont demo_platform [''D:'', ''Monalisa.sf2'']
         (demo_world\<lparr>environ := Map.empty\<rparr>)
       = (demo_world\<lparr>environ := Map.empty\<rparr>, Inl RuntimeError)"
proof -
  have a: "\<not> is_file demo_world [''D:'', ''Missing.sf2'']"
    by (simp add: is_file_def node_at_def demo_world_def)
  have b: "is_file (demo_world\<lparr>environ := Map.empty\<rparr>) [''D:'', ''Monalisa.sf2'']"
    and b': "is_file demo_world [''D:'', ''Monalisa.sf2'']"
    by (simp_all add: is_file_def node_at_def demo_world_def)
  have c: "environ (demo_world\<lparr>environ := Map.empty\<rparr>) ''APPDATA'' = None" by simp
  from a have 1: "configure_vlc_soundfont demo_platform [''D:'', ''Missing.sf2''] demo_world
       = (demo_world, Inl FileNotFoundError)"
    using configure_fails_fast [of demo_world "[''D:'', ''Missing.sf2'']" demo_platform] by simp
  from b c have 2: "configure_vlc_soundfont demo_platform [''D:'', ''Monalisa.sf2'']
         (demo_world\<lparr>environ := Map.empty\<rparr>)
       = (demo_world\<lparr>environ := Map.empty\<rparr>, Inl RuntimeError)"
    using configure_fails_fast [of "demo_world\<lparr>environ := Map.empty\<rparr>"
        "[''D:'', ''Monalisa.sf2'']" demo_platform] by simp
  from a b' c 1 2 show ?thesis by simp
qed

text \<open>
  Claim C7. Let the soundfont be a regular file, \<open>APPDATA\<close> be set, the configuration
  file exist with content \<open>c\<close> under the directories that lead to it, and no backup
  exist yet. Then the run succeeds; after it the backup holds \<open>c\<close>, the content the
  configuration file had before the merge; no location but the backup and the
  configuration file has changed, so one backup was made. A second run from there,
  whatever its soundfont and its outcome, leaves the backup at \<open>c\<close>; and so does
  every run, on any platform, from any world in which the backup exists: it keeps
  what the backup holds.
\<close>

theorem first_run_makes_the_backup:
  assumes sf: "is_file w sf"
    and env: "environ w ''APPDATA'' = Some appdata" and ne: "appdata \<noteq> []"
    and dirs: "\<forall>q \<in> set (ancestors_and_self (Path_of plat appdata @ [''vlc''])). files w q = Some Dir"
    and pre: "files w (Path_of plat appdata @ [''vlc'', ''vlcrc'']) = Some (File c)"
    and nobak: "files w (Path_of plat appdata @ [''vlc'', ''vlcrc.bak'']) = None"
  shows "\<exists>w1. configure_vlc_soundfont plat sf w = (w1, Inr (Path_of plat appdata @ [''vlc'', ''vlcrc'']))
           \<and> files w1 (Path_of plat appdata @ [''vlc'', ''vlcrc.bak'']) = Some (File c)
           \<and> (\<forall>q. q \<noteq> Path_of plat appdata @ [''vlc'', ''vlcrc.bak'']
                  \<longrightarrow> q \<noteq> Path_of plat appdata @ [''vlc'', ''vlcrc'']
                  \<longrightarrow> files w1 q = files w q)
           \<and> (\<forall>sf2 w2 r. configure_vlc_soundfont plat sf2 w1 = (w2, r)
                  \<longrightarrow> files w2 (Path_of plat appdata @ [''vlc'', ''vlcrc.bak'']) = Some (File c))
           \<and> (\<forall>plat' sf' w' w'' r n.
                  files w' (Path_of plat appdata @ [''vlc'', ''vlcrc.bak'']) = Some n
                  \<longrightarrow> configure_vlc_soundfont plat' sf' w' = (w'', r)
                  \<longrightarrow> files w'' (Path_of plat appdata @ [''vlc'', ''vlcrc.bak'']) = Some n)"
proof -
  let ?d = "Path_of plat appdata @ [''vlc'']"
  let ?v = "Path_of plat appdata @ [''vlc'', ''vlcrc'']"
  let ?b = "Path_of plat appdata @ [''vlc'', ''vlcrc.bak'']"
  let ?new = "encode_text plat (join_lines (update_soundfont_in_lines
                 (splitlines (decode_text plat c)) (resolve_str plat sf)))"
  let ?w2 = "w\<lparr>files := (files w)(?b \<mapsto> File c),
               trace := trace w @ [Read_file ?v, Wrote_file ?b]\<rparr>"
  let ?w1 = "w\<lparr>files := (files w)(?b \<mapsto> File c, ?v \<mapsto> File ?new),
               trace := trace w @ [Read_file ?v, Wrote_file ?b, Read_file ?v, Wrote_file ?v]\<rparr>"
  have d: "files w ?d = Some Dir" using dirs self_in_ancestors [of ?d] by simp
  have g: "get_vlc_config_file plat w = (w, Inr ?v)"
    using env ne mkdir_parents_present [OF dirs]
    by (simp add: get_vlc_config_file_def)
  have bs: "with_bak_suffix ?v = Inr ?b"
    by (simp add: with_bak_suffix_def butlast_append)
  have rb: "read_bytes ?v w = (w\<lparr>trace := trace w @ [Read_file ?v]\<rparr>, Inr c)"
    using pre by (simp add: read_bytes_def node_at_def)
  have wb: "write_bytes ?b c (w\<lparr>trace := trace w @ [Read_file ?v]\<rparr>) = (?w2, Inr ())"
    using nobak d by (simp add: write_bytes_def node_at_def butlast_append)
  have b: "backup_file ?v w = (?w2, Inr ())"
    using pre nobak bs rb wb by (simp add: backup_file_def path_exists_def node_at_def)
  have ex2: "path_exists ?w2 ?v" using pre by (simp add: path_exists_def node_at_def)
  have rt: "read_text plat ?v ?w2
      = (?w2\<lparr>trace := trace ?w2 @ [Read_file ?v]\<rparr>, Inr (decode_text plat c))"
    using pre by (simp add: read_text_def read_bytes_def node_at_def)
  have wt: "write_text plat ?v (join_lines (update_soundfont_in_lines
                 (splitlines (decode_text plat c)) (resolve_str plat sf)))
              (?w2\<lparr>trace := trace ?w2 @ [Read_file ?v]\<rparr>) = (?w1, Inr ())"
    using pre d by (simp add: write_text_def write_bytes_def node_at_def butlast_append)
  have run: "configure_vlc_soundfont plat sf w = (?w1, Inr ?v)"
    using sf wt by (simp add: configure_vlc_soundfont_def g b ex2 rt)
  have bak1: "files ?w1 ?b = Some (File c)" by simp
  have others: "\<forall>q. q \<noteq> ?b \<longrightarrow> q \<noteq> ?v \<longrightarrow> files ?w1 q = files w q" by simp
  have inv: "\<forall>plat' sf' w' w'' r n. files w' ?b = Some n
                  \<longrightarrow> configure_vlc_soundfont plat' sf' w' = (w'', r)
                  \<longrightarrow> files w'' ?b = Some n"
    using configure_keeps [where q = ?b] by simp
  have second: "\<forall>sf2 w2 r. configure_vlc_soundfont plat sf2 ?w1 = (w2, r)
                  \<longrightarrow> files w2 ?b = Some (File c)"
    using inv bak1 by blast
  from run bak1 others second inv show ?thesis by blast
qed

theorem first_run_makes_the_backup_witness:
  "is_file demo_world [''D:'', ''Monalisa.sf2'']
   \<and> files demo_world [''C:'', ''vlc'', ''vlcrc''] = Some (File (''a=1'' @ [NL] @ ''#soundfont=old''))
   \<and> files demo_world [''C:'', ''vlc'', ''vlcrc.bak''] = None
   \<and> snd (configure_vlc_soundfont demo_platform [''D:'', ''Monalisa.sf2''] demo_world)
       = Inr [''C:'', ''vlc'', ''vlcrc'']
   \<and> files (fst (configure_vlc_soundfont demo_platform [''D:'', ''Monalisa.sf2''] demo_world))
         [''C:'', ''vlc'', ''vlcrc.bak'']
       = Some (File (''a=1'' @ [NL] @ ''#soundfont=old''))"
proof -
  have sf: "is_file demo_world [''D:'', ''Monalisa.sf2'']"
    by (simp add: is_file_def node_at_def demo_world_def)
  have env: "environ demo_world ''APPDATA'' = Some ''C:''" and ne: "''C:'' \<noteq> []"
    by (simp_all add: demo_world_def)
  have dirs: "\<forall>q \<in> set (ancestors_and_self (Path_of demo_platform ''C:'' @ [''vlc''])).
      files demo_world q = Some Dir"
    by (simp add: ancestors_and_self_def demo_platform_def demo_world_def upt_rec)
  have pre: "files demo_world (Path_of demo_platform ''C:'' @ [''vlc'', ''vlcrc''])
      = Some (File (''a=1'' @ [NL] @ ''#soundfont=old''))"
    by (simp add: demo_platform_def demo_world_def)
  have nobak: "files demo_world (Path_of demo_platform ''C:'' @ [''vlc'', ''vlcrc.bak'']) = None"
    by (simp add: demo_platform_def demo_world_def)
  from first_run_makes_the_backup [OF sf env ne dirs pre nobak]
  obtain w1 where
    "configure_vlc_soundfont demo_platform [''D:'', ''Monalisa.sf2''] demo_world
       = (w1, Inr (Path_of demo_platform ''C:'' @ [''vlc'', ''vlcrc'']))"
    and "files w1 (Path_of demo_platform ''C:'' @ [''vlc'', ''vlcrc.bak''])
       = Some (File (''a=1'' @ [NL] @ ''#soundfont=old''))"
    by blast
  then have "snd (configure_vlc_soundfont demo_platform [''D:'', ''Monalisa.sf2''] demo_world)
       = Inr [''C:'', ''vlc'', ''vlcrc'']"
    and "files (fst (configure_vlc_soundfont demo_platform [''D:'', ''Monalisa.sf2''] demo_world))
         [''C:'', ''vlc'', ''vlcrc.bak'']
       = Some (File (''a=1'' @ [NL] @ ''#soundfont=old''))"
    by (simp_all add: demo_platform_def)
  with sf pre nobak show ?thesis by (simp add: demo_platform_def)
qed

section \<open>Properties of the orchestrator\<close>

lemma run_eq:
  "run sys cmd cwd m =
     (\<lparr>host = snd (os_run sys (host m) cmd cwd), spawned = spawned m @ [(cmd, cwd)]\<rparr>,
      case fst (os_run sys (host m) cmd cwd) of
        Not_started \<Rightarrow> Inl (Raised OSError)
      | Returned rc \<Rightarrow> if rc \<noteq> 0 then Inl (SystemExit rc) else Inr ())"
  by (simp add: run_def Let_def split: prod.splits proc_result.splits)

lemma apply_each_stops:
  assumes "k < length ps"
    and "\<forall>j<k. fst (os_run sys
            (host_after sys (host m)
               (map (\<lambda>p. (git_apply_cmd sys rv p, Some repo)) (take j ps)))
            (git_apply_cmd sys rv (ps ! j)) (Some repo)) = Returned 0"
    and "fst (os_run sys
            (host_after sys (host m)
               (map (\<lambda>p. (git_apply_cmd sys rv p, Some repo)) (take k ps)))
            (git_apply_cmd sys rv (ps ! k)) (Some repo)) = Returned rc"
    and "rc \<noteq> 0"
  shows "apply_each sys repo rv ps m =
           (\<lparr>host = host_after sys (host m)
                      (map (\<lambda>p. (git_apply_cmd sys rv p, Some repo)) (take (Suc k) ps)),
             spawned = spawned m
                      @ map (\<lambda>p. (git_apply_cmd sys rv p, Some repo)) (take (Suc k) ps)\<rparr>,
            Inl (SystemExit rc))"
  using assms
proof (induction ps arbitrary: k m)
  case Nil
  then show ?case by simp
next
  case (Cons p ps)
  let ?c = "\<lambda>p. (git_apply_cmd sys rv p, Some repo)"
  show ?case
  proof (cases k)
    case 0
    with Cons.prems show ?thesis by (simp add: run_eq)
  next
    case (Suc k')
    let ?m' = "\<lparr>host = snd (os_run sys (host m) (git_apply_cmd sys rv p) (Some repo)),
                spawned = spawned m @ [?c p]\<rparr>"
    from Cons.prems(2) Suc
    have first: "fst (os_run sys (host m) (git_apply_cmd sys rv p) (Some repo)) = Returned 0"
      by (auto dest: spec [of _ 0])
    have k': "k' < length ps" using Cons.prems(1) Suc by simp
    have ok: "\<forall>j<k'. fst (os_run sys
            (host_after sys (host ?m') (map ?c (take j ps)))
            (git_apply_cmd sys rv (ps ! j)) (Some repo)) = Returned 0"
    proof (intro allI impI)
      fix j assume "j < k'"
      then have "Suc j < k" using Suc by simp
      with Cons.prems(2) show "fst (os_run sys
            (host_after sys (host ?m') (map ?c (take j ps)))
            (git_apply_cmd sys rv (ps ! j)) (Some repo)) = Returned 0"
        by (auto dest!: spec [of _ "Suc j"])
    qed
    have fail: "fst (os_run sys
            (host_after sys (host ?m') (map ?c (take k' ps)))
            (git_apply_cmd sys rv (ps ! k')) (Some repo)) = Returned rc"
      using Cons.prems(3) Suc by simp
    have "apply_each sys repo rv ps ?m' =
           (\<lparr>host = host_after sys (host ?m') (map ?c (take (Suc k') ps)),
             spawned = spawned ?m' @ map ?c (take (Suc k') ps)\<rparr>,
            Inl (SystemExit rc))"
      using k' ok fail Cons.prems(4) by (rule Cons.IH)
    with first Suc show ?thesis by (simp add: run_eq)
  qed
qed

lemma main_after_repo:
  assumes "os_which sys (host m0) ''git''"
    and "configure args \<or> build args \<or> bootstrap args \<longrightarrow> os_which sys (host m0) ''make''"
    and "ensure_repo sys (os_resolve sys (host m0) (work_dir args)) (remote args) (branch args) m0
           = (m, Inr repo)"
  shows "main sys args m0 =
     then_do (apply_patches sys repo (os_resolve sys (host m0) (patches_dir args))
                (reverse_patches args) m) (\<lambda>_ m.
        if apply_only args then (m, Inr ())
        else
          then_do (if configure args
                   then configure_vlc sys repo (os_resolve sys (host m0) (work_dir args) @ [''build''])
                          (configure_flags args) (bootstrap args) m
                   else (m, Inr ())) (\<lambda>_ m.
          then_do (if build args
                   then build_vlc sys (os_resolve sys (host m0) (work_dir args) @ [''build''])
                          (jobs args) m
                   else (m, Inr ())) (\<lambda>_ m.
          (m, Inr ()))))"
  using assms by (auto simp: main_def check_tool_def Let_def)

lemmas demo_eval = demo_system_def demo_args_def git_apply_cmd_def

section \<open>The claims about the orchestrator\<close>

text \<open>
  Claim C8. Let the patches directory exist and \<open>ps\<close> be its patch files in sorted
  order (lexicographic by name), and let the patch at position \<open>k\<close> be the first that
  fails: git returns 0 for every patch before it and \<open>rc \<noteq> 0\<close> for it, each command
  meeting the system as the commands before it left it. Then \<open>apply_patches\<close> ends
  with \<open>sys.exit(rc)\<close>, and the commands it has handed to the system are exactly the
  \<open>git apply\<close> of the patches up to position \<open>k\<close>, in order: no later patch is
  attempted. In \<open>main\<close> nothing catches the exit: whenever the tools are present and
  \<open>ensure_repo\<close> has left the state \<open>m\<close>, the whole run ends with \<open>sys.exit(rc)\<close>
  in the state the failed command left.
\<close>

theorem failed_patch_stops_the_run:
  assumes "os_exists sys (host m) pdir"
    and "ps = sort (os_glob sys (host m) pdir ''*.patch'')"
    and "k < length ps"
    and "\<forall>j<k. fst (os_run sys
            (host_after sys (host m)
               (map (\<lambda>p. (git_apply_cmd sys rv p, Some repo)) (take j ps)))
            (git_apply_cmd sys rv (ps ! j)) (Some repo)) = Returned 0"
    and "fst (os_run sys
            (host_after sys (host m)
               (map (\<lambda>p. (git_apply_cmd sys rv p, Some repo)) (take k ps)))
            (git_apply_cmd sys rv (ps ! k)) (Some repo)) = Returned rc"
    and "rc \<noteq> 0"
  shows "\<exists>m'. apply_patches sys repo pdir rv m = (m', Inl (SystemExit rc))
           \<and> spawned m' = spawned m
               @ map (\<lambda>p. (git_apply_cmd sys rv p, Some repo)) (take (Suc k) ps)
           \<and> sorted ps
           \<and> (\<forall>args m0.
                 os_which sys (host m0) ''git''
                 \<longrightarrow> (configure args \<or> build args \<or> bootstrap args
                        \<longrightarrow> os_which sys (host m0) ''make'')
                 \<longrightarrow> ensure_repo sys (os_resolve sys (host m0) (work_dir args))
                        (remote args) (branch args) m0 = (m, Inr repo)
                 \<longrightarrow> pdir = os_resolve sys (host m0) (patches_dir args)
                 \<longrightarrow> rv = reverse_patches args
                 \<longrightarrow> main sys args m0 = (m', Inl (SystemExit rc)))"
proof -
  let ?c = "\<lambda>p. (git_apply_cmd sys rv p, Some repo)"
  let ?m' = "\<lparr>host = host_after sys (host m) (map ?c (take (Suc k) ps)),
              spawned = spawned m @ map ?c (take (Suc k) ps)\<rparr>"
  have each: "apply_each sys repo rv ps m = (?m', Inl (SystemExit rc))"
    using assms(3-6) by (rule apply_each_stops)
  from assms(3) have "ps \<noteq> []" by auto
  with assms(1,2) each
  have ap: "apply_patches sys repo pdir rv m = (?m', Inl (SystemExit rc))"
    by (simp add: apply_patches_def Let_def)
  have sp: "spawned ?m' = spawned m @ map ?c (take (Suc k) ps)" by simp
  have so: "sorted ps" using assms(2) by simp
  have mn: "main sys args m0 = (?m', Inl (SystemExit rc))"
    if "os_which sys (host m0) ''git''"
      and "configure args \<or> build args \<or> bootstrap args \<longrightarrow> os_which sys (host m0) ''make''"
      and "ensure_repo sys (os_resolve sys (host m0) (work_dir args))
                        (remote args) (branch args) m0 = (m, Inr repo)"
      and "pdir = os_resolve sys (host m0) (patches_dir args)"
      and "rv = reverse_patches args"
    for args m0
    using main_after_repo [OF that(1-3)] ap that(4,5) by simp
  from ap sp so mn show ?thesis by blast
qed

theorem failed_patch_stops_the_run_witness:
  "sort (os_glob demo_system 3 [''patches''] ''*.patch'')
     = [[''patches'', ''01-a.patch''], [''patches'', ''02-b.patch''], [''patches'', ''03-c.patch'']]
   \<and> snd (main demo_system demo_args \<lparr>host = 0, spawned = []\<rparr>) = Inl (SystemExit 1)
   \<and> spawned (fst (main demo_system demo_args \<lparr>host = 0, spawned = []\<rparr>))
       = [([''git'', ''fetch'', ''origin''], Some [''work'', ''vlc'']),
          ([''git'', ''checkout'', ''master''], Some [''work'', ''vlc'']),
          ([''git'', ''pull'', ''origin'', ''master''], Some [''work'', ''vlc'']),
          ([''git'', ''apply'', ''/patches/01-a.patch''], Some [''work'', ''vlc'']),
          ([''git'', ''apply'', ''/patches/02-b.patch''], Some [''work'', ''vlc''])]"
proof -
  let ?start = "\<lparr>host = 0::nat, spawned = []\<rparr>"
  let ?m = "\<lparr>host = 3::nat,
             spawned = [([''git'', ''fetch'', ''origin''], Some [''work'', ''vlc'']),
                        ([''git'', ''checkout'', ''master''], Some [''work'', ''vlc'']),
                        ([''git'', ''pull'', ''origin'', ''master''], Some [''work'', ''vlc''])]\<rparr>"
  let ?ps = "[[''patches'', ''01-a.patch''], [''patches'', ''02-b.patch''],
              [''patches'', ''03-c.patch'']]"
  have ex: "os_exists demo_system (host ?m) [''patches'']" by (simp add: demo_eval)
  have ps: "?ps = sort (os_glob demo_system (host ?m) [''patches''] ''*.patch'')"
    by (simp add: demo_eval)
  have k: "1 < length ?ps" by simp
  have ok: "\<forall>j<1. fst (os_run demo_system
            (host_after demo_system (host ?m)
               (map (\<lambda>p. (git_apply_cmd demo_system False p, Some [''work'', ''vlc''])) (take j ?ps)))
            (git_apply_cmd demo_system False (?ps ! j)) (Some [''work'', ''vlc''])) = Returned 0"
    by (simp add: demo_eval)
  have fail: "fst (os_run demo_system
            (host_after demo_system (host ?m)
               (map (\<lambda>p. (git_apply_cmd demo_system False p, Some [''work'', ''vlc''])) (take 1 ?ps)))
            (git_apply_cmd demo_system False (?ps ! 1)) (Some [''work'', ''vlc''])) = Returned 1"
    by (simp add: demo_eval)
  have rc: "(1::int) \<noteq> 0" by simp
  have git: "os_which demo_system (host ?start) ''git''" by (simp add: demo_eval)
  have make: "configure demo_args \<or> build demo_args \<or> bootstrap demo_args
      \<Longrightarrow> os_which demo_system (host ?start) ''make''" by (simp add: demo_eval)
  have repo: "ensure_repo demo_system (os_resolve demo_system (host ?start) (work_dir demo_args))
      (remote demo_args) (branch demo_args) ?start = (?m, Inr [''work'', ''vlc''])"
    by (simp add: demo_eval ensure_repo_def Let_def) (simp add: run_def)
  have pd: "[''patches''] = os_resolve demo_system (host ?start) (patches_dir demo_args)"
    by (simp add: demo_eval)
  have rv: "False = reverse_patches demo_args" by (simp add: demo_eval)
  from failed_patch_stops_the_run [OF ex ps k ok fail rc]
  obtain m' where
    sp: "spawned m' = spawned ?m
           @ map (\<lambda>p. (git_apply_cmd demo_system False p, Some [''work'', ''vlc''])) (take (Suc 1) ?ps)"
    and mn: "\<forall>args m0.
                 os_which demo_system (host m0) ''git''
                 \<longrightarrow> (configure args \<or> build args \<or> bootstrap args
                        \<longrightarrow> os_which demo_system (host m0) ''make'')
                 \<longrightarrow> ensure_repo demo_system (os_resolve demo_system (host m0) (work_dir args))
                        (remote args) (branch args) m0 = (?m, Inr [''work'', ''vlc''])
                 \<longrightarrow> [''patches''] = os_resolve demo_system (host m0) (patches_dir args)
                 \<longrightarrow> False = reverse_patches args
                 \<longrightarrow> main demo_system args m0 = (m', Inl (SystemExit 1))"
    by blast
  have run: "main demo_system demo_args ?start = (m', Inl (SystemExit 1))"
    by (rule mn [rule_format, OF git make repo pd rv])
  have order: "sort (os_glob demo_system 3 [''patches''] ''*.patch'') = ?ps"
    by (simp add: demo_eval)
  have cmds: "spawned m'
       = [([''git'', ''fetch'', ''origin''], Some [''work'', ''vlc'']),
          ([''git'', ''checkout'', ''master''], Some [''work'', ''vlc'']),
          ([''git'', ''pull'', ''origin'', ''master''], Some [''work'', ''vlc'']),
          ([''git'', ''apply'', ''/patches/01-a.patch''], Some [''work'', ''vlc'']),
          ([''git'', ''apply'', ''/patches/02-b.patch''], Some [''work'', ''vlc''])]"
    unfolding sp by (simp add: demo_eval)
  from order run cmds show ?thesis by simp
qed

text \<open>
  Claim C9. When the patches directory does not exist, or holds no file matching
  \<open>*.patch\<close>, \<open>apply_patches\<close> returns normally and leaves the state as it was: no
  command is run. \<open>main\<close> goes on from there: it returns at once in apply-only mode
  and continues with the configure and build steps otherwise.
\<close>

theorem no_patches_is_no_error:
  assumes "\<not> os_exists sys (host m) pdir \<or> os_glob sys (host m) pdir ''*.patch'' = []"
  shows "apply_patches sys repo pdir rv m = (m, Inr ())
         \<and> (\<forall>args m0.
               os_which sys (host m0) ''git''
               \<longrightarrow> (configure args \<or> build args \<or> bootstrap args
                      \<longrightarrow> os_which sys (host m0) ''make'')
               \<longrightarrow> ensure_repo sys (os_resolve sys (host m0) (work_dir args))
                      (remote args) (branch args) m0 = (m, Inr repo)
               \<longrightarrow> pdir = os_resolve sys (host m0) (patches_dir args)
               \<longrightarrow> rv = reverse_patches args
               \<longrightarrow> main sys args m0 =
                     (if apply_only args then (m, Inr ())
                      else
                        then_do (if configure args
                                 then configure_vlc sys repo
                                        (os_resolve sys (host m0) (work_dir args) @ [''build''])
                                        (configure_flags args) (bootstrap args) m
                                 else (m, Inr ())) (\<lambda>_ m.
                        then_do (if build args
                                 then build_vlc sys
                                        (os_resolve sys (host m0) (work_dir args) @ [''build''])
                                        (jobs args) m
                                 else (m, Inr ())) (\<lambda>_ m.
                        (m, Inr ())))))"
proof -
  have ap: "apply_patches sys repo pdir rv m = (m, Inr ())"
    using assms by (auto simp: apply_patches_def Let_def)
  have mn: "main sys args m0 =
                     (if apply_only args then (m, Inr ())
                      else
                        then_do (if configure args
                                 then configure_vlc sys repo
                                        (os_resolve sys (host m0) (work_dir args) @ [''build''])
                                        (configure_flags args) (bootstrap args) m
                                 else (m, Inr ())) (\<lambda>_ m.
                        then_do (if build args
                                 then build_vlc sys
                                        (os_resolve sys (host m0) (work_dir args) @ [''build''])
                                        (jobs args) m
                                 else (m, Inr ())) (\<lambda>_ m.
                        (m, Inr ()))))"
    if "os_which sys (host m0) ''git''"
      and "configure args \<or> build args \<or> bootstrap args \<longrightarrow> os_which sys (host m0) ''make''"
      and "ensure_repo sys (os_resolve sys (host m0) (work_dir args))
                        (remote args) (branch args) m0 = (m, Inr repo)"
      and "pdir = os_resolve sys (host m0) (patches_dir args)"
      and "rv = reverse_patches args"
    for args m0
    using main_after_repo [OF that(1-3)] ap that(4,5) by (simp add: then_do_def)
  from ap mn show ?thesis by blast
qed

theorem no_patches_is_no_error_witness:
  "\<not> os_exists (demo_system\<lparr>os_exists := \<lambda>h p. p \<noteq> [''patches'']\<rparr>) 3 [''patches'']
   \<and> main (demo_system\<lparr>os_exists := \<lambda>h p. p \<noteq> [''patches'']\<rparr>) demo_args
         \<lparr>host = 0, spawned = []\<rparr>
       = (\<lparr>host = 3,
            spawned = [([''git'', ''fetch'', ''origin''], Some [''work'', ''vlc'']),
                       ([''git'', ''checkout'', ''master''], Some [''work'', ''vlc'']),
                       ([''git'', ''pull'', ''origin'', ''master''], Some [''work'', ''vlc''])]\<rparr>,
          Inr ())"
proof -
  let ?sys = "demo_system\<lparr>os_exists := \<lambda>h p. p \<noteq> [''patches'']\<rparr>"
  let ?start = "\<lparr>host = 0::nat, spawned = []\<rparr>"
  let ?m = "\<lparr>host = 3::nat,
             spawned = [([''git'', ''fetch'', ''origin''], Some [''work'', ''vlc'']),
                        ([''git'', ''checkout'', ''master''], Some [''work'', ''vlc'']),
                        ([''git'', ''pull'', ''origin'', ''master''], Some [''work'', ''vlc''])]\<rparr>"
  have h: "\<not> os_exists ?sys (host ?m) [''patches'']
      \<or> os_glob ?sys (host ?m) [''patches''] ''*.patch'' = []"
    by simp
  have git: "os_which ?sys (host ?start) ''git''" by (simp add: demo_eval)
  have make: "configure demo_args \<or> build demo_args \<or> bootstrap demo_args
      \<Longrightarrow> os_which ?sys (host ?start) ''make''" by (simp add: demo_eval)
  have repo: "ensure_repo ?sys (os_resolve ?sys (host ?start) (work_dir demo_args))
      (remote demo_args) (branch demo_args) ?start = (?m, Inr [''work'', ''vlc''])"
    by (simp add: demo_eval ensure_repo_def Let_def) (simp add: run_def)
  have pd: "[''patches''] = os_resolve ?sys (host ?start) (patches_dir demo_args)"
    by (simp add: demo_eval)
  have rv: "False = reverse_patches demo_args" by (simp add: demo_eval)
  have ao: "apply_only demo_args" by (simp add: demo_eval)
  have "main ?sys demo_args ?start =
                     (if apply_only demo_args then (?m, Inr ())
                      else
                        then_do (if configure demo_args
                                 then configure_vlc ?sys [''work'', ''vlc'']
                                        (os_resolve ?sys (host ?start) (work_dir demo_args) @ [''build''])
                                        (configure_flags demo_args) (bootstrap demo_args) ?m
                                 else (?m, Inr ())) (\<lambda>_ m.
                        then_do (if build demo_args
                                 then build_vlc ?sys
                                        (os_resolve ?sys (host ?start) (work_dir demo_args) @ [''build''])
                                        (jobs demo_args) m
                                 else (m, Inr ())) (\<lambda>_ m.
                        (m, Inr ()))))"
    by (rule no_patches_is_no_error [OF h, THEN conjunct2, rule_format, OF git make repo pd rv])
  with ao have "main ?sys demo_args ?start = (?m, Inr ())" by simp
  then show ?thesis by simp
qed

end
